theory Spec2Isabelle
  imports Main "HOL-Library.Word"
begin

unbundle bit_operations_syntax

section \<open>Data model\<close>

text \<open>
  The patcher of \<^verbatim>\<open>tools/runtime/patch_runtime.py\<close> is Python: its integers are
  unbounded and are modelled as \<^typ>\<open>int\<close>, on which \<open>AND\<close>, \<open>OR\<close>, \<open>push_bit\<close> and
  \<open>drop_bit\<close> act on the infinite two's complement representation, as Python's
  \<^verbatim>\<open>&\<close>, \<^verbatim>\<open>|\<close>, \<^verbatim>\<open><<\<close> and \<^verbatim>\<open>>>\<close> do; \<open>mod\<close> rounds towards minus infinity, as
  Python's \<^verbatim>\<open>%\<close> does. The image is a \<^verbatim>\<open>bytearray\<close>: a list of 8-bit words.
\<close>

type_synonym bytes = "8 word list"

text \<open>
  The exceptions the patcher raises. The source raises \<^verbatim>\<open>RuntimeError\<close> for a missing
  section or symbol and \<^verbatim>\<open>ValueError\<close> for the two encoding failures, told apart by
  their messages; \<^verbatim>\<open>struct.error\<close> comes from \<^verbatim>\<open>struct.unpack_from\<close> and
  \<^verbatim>\<open>struct.pack_into\<close>.
\<close>

datatype exn =
    SectionNotFound
  | SymbolNotFound string
  | MisalignedTarget int
  | OffsetOutOfRange int
  | StructError

fun is_RuntimeError :: "exn \<Rightarrow> bool" where
  "is_RuntimeError SectionNotFound = True"
| "is_RuntimeError (SymbolNotFound _) = True"
| "is_RuntimeError _ = False"

fun is_ValueError :: "exn \<Rightarrow> bool" where
  "is_ValueError (MisalignedTarget _) = True"
| "is_ValueError (OffsetOutOfRange _) = True"
| "is_ValueError _ = False"

section \<open>Instruction codec\<close>

text \<open>
  \<^verbatim>\<open>encode_bl_instruction(pc, target)\<close>: the alignment test comes first, then the range
  test \<^verbatim>\<open>-0x8000000 <= offset <= 0x7ffffff\<close>, then the word
  \<^verbatim>\<open>0x94000000 | ((offset >> 2) & 0x3ffffff)\<close>.
\<close>

definition encode_bl_instruction :: "int \<Rightarrow> int \<Rightarrow> exn + int" where
  "encode_bl_instruction pc target =
     (let offset = target - pc in
      if offset mod 4 \<noteq> 0 then Inl (MisalignedTarget offset)
      else if \<not> (- 0x8000000 \<le> offset \<and> offset \<le> 0x7ffffff) then Inl (OffsetOutOfRange offset)
      else let imm26 = drop_bit 2 offset AND 0x3ffffff in Inr (0x94000000 OR imm26))"

text \<open>
  The decode rule of \<^verbatim>\<open>patch_call_site\<close> (lines 152 to 158): the low 26 bits, or-ed with
  \<^verbatim>\<open>0xfc000000\<close> when bit 25 is set, shifted left by two and added to the address of the
  instruction.
\<close>

definition decode_bl_target :: "int \<Rightarrow> int \<Rightarrow> int" where
  "decode_bl_target call_vaddr current_insn =
     (let imm26 = current_insn AND 0x3ffffff;
          imm26 = (if imm26 AND 0x2000000 \<noteq> 0 then imm26 OR 0xfc000000 else imm26);
          current_offset = push_bit 2 imm26
      in call_vaddr + current_offset)"

section \<open>The image buffer\<close>

text \<open>
  \<^verbatim>\<open>struct.unpack_from('<I', data, offset)\<close> reads four bytes, least significant first,
  and raises \<^verbatim>\<open>struct.error\<close> when fewer than four bytes remain at the offset.
  \<^verbatim>\<open>patch_call_site\<close> calls it only after testing \<^verbatim>\<open>0 <= file_offset\<close>, so the offset
  is a natural number here.
\<close>

definition unpack_from_u32 :: "bytes \<Rightarrow> nat \<Rightarrow> exn + int" where
  "unpack_from_u32 data off =
     (if off + 4 \<le> length data
      then Inr (uint (data ! off) + 256 * uint (data ! (off + 1))
                + 65536 * uint (data ! (off + 2)) + 16777216 * uint (data ! (off + 3)))
      else Inl StructError)"

text \<open>
  \<^verbatim>\<open>struct.pack_into('<I', data, offset, v)\<close> stores \<open>v\<close> in the four bytes at the offset,
  least significant first; it raises \<^verbatim>\<open>struct.error\<close> when \<open>v\<close> is not an unsigned
  32-bit number or when the four bytes do not lie within the buffer.
\<close>

definition pack_into_u32 :: "bytes \<Rightarrow> nat \<Rightarrow> int \<Rightarrow> exn + bytes" where
  "pack_into_u32 data off v =
     (if v < 0 \<or> 4294967296 \<le> v then Inl StructError
      else if length data < off + 4 then Inl StructError
      else Inr (data[off := word_of_int v,
                     off + 1 := word_of_int (drop_bit 8 v),
                     off + 2 := word_of_int (drop_bit 16 v),
                     off + 3 := word_of_int (drop_bit 24 v)]))"

section \<open>Patching one call site\<close>

text \<open>What \<^verbatim>\<open>patch_call_site\<close> prints, one constructor for each \<^verbatim>\<open>print\<close>.\<close>

datatype msg =
    WarnInvalidOffset int int
  | WarnNotBl int int
  | WarnTargetMismatch int int int
  | ErrCannotEncode int exn
  | Patched int int int int

text \<open>
  \<^verbatim>\<open>patch_call_site(data, file_offset_base, vaddr_base, call_vaddr, old_target, new_target)\<close>
  mutates \<open>data\<close> in place and returns a boolean; the model returns the boolean, the
  buffer afterwards and the messages printed. An exception that leaves the function is
  \<open>Inl\<close>: the \<^verbatim>\<open>ValueError\<close> of the encoder is caught inside, a \<^verbatim>\<open>struct.error\<close> is not.
\<close>

definition patch_call_site ::
  "bytes \<Rightarrow> int \<Rightarrow> int \<Rightarrow> int \<Rightarrow> int \<Rightarrow> int \<Rightarrow> exn + (bool \<times> bytes \<times> msg list)" where
  "patch_call_site data file_offset_base vaddr_base call_vaddr old_target new_target =
     (let file_offset = file_offset_base + (call_vaddr - vaddr_base) in
      if file_offset < 0 \<or> file_offset \<ge> int (length data)
      then Inr (False, data, [WarnInvalidOffset file_offset call_vaddr])
      else
        case unpack_from_u32 data (nat file_offset) of
          Inl e \<Rightarrow> Inl e
        | Inr current_insn \<Rightarrow>
            if current_insn AND 0xfc000000 \<noteq> 0x94000000
            then Inr (False, data, [WarnNotBl call_vaddr current_insn])
            else
              let current_target = decode_bl_target call_vaddr current_insn;
                  warn = (if current_target \<noteq> old_target
                          then [WarnTargetMismatch call_vaddr current_target old_target]
                          else [])
              in (case encode_bl_instruction call_vaddr new_target of
                    Inl e \<Rightarrow>
                      if is_ValueError e
                      then Inr (False, data, warn @ [ErrCannotEncode call_vaddr e])
                      else Inl e
                  | Inr new_insn \<Rightarrow>
                      (case pack_into_u32 data (nat file_offset) new_insn of
                         Inl e \<Rightarrow> Inl e
                       | Inr data' \<Rightarrow>
                           Inr (True, data',
                                warn @ [Patched call_vaddr file_offset old_target new_target]))))"

section \<open>Symbols and call sites\<close>

text \<open>
  \<^verbatim>\<open>find_symbol_address\<close> reads the output of the symbol inspector line by line. A line
  with at least three white-space separated fields is a record here: the address field as
  \<^verbatim>\<open>int(addr_str, 16)\<close> reads it (\<open>None\<close> where that raises \<^verbatim>\<open>ValueError\<close>), the type
  field, and the name (the remaining fields joined by single blanks). Lines with fewer
  fields are skipped by the source and give no record.
\<close>

type_synonym nm_record = "int option \<times> string \<times> string"

text \<open>Python's \<^verbatim>\<open>sub in s\<close> on strings: \<open>sub\<close> occurs in \<open>s\<close> as a contiguous piece.\<close>

primrec py_str_in :: "string \<Rightarrow> string \<Rightarrow> bool" where
  "py_str_in sub [] = (sub = [])"
| "py_str_in sub (c # cs) = (take (length sub) (c # cs) = sub \<or> py_str_in sub cs)"

text \<open>The loop of lines 76 to 86 that collects \<^verbatim>\<open>matches\<close>.\<close>

fun collect_matches :: "nm_record list \<Rightarrow> string \<Rightarrow> (int \<times> string) list" where
  "collect_matches [] symbol_name = []"
| "collect_matches ((addr, sym_type, name) # rest) symbol_name =
     (if name = symbol_name \<and> py_str_in sym_type ''Tt''
      then (case addr of
              Some a \<Rightarrow> (a, sym_type) # collect_matches rest symbol_name
            | None \<Rightarrow> collect_matches rest symbol_name)
      else collect_matches rest symbol_name)"

text \<open>The loop of lines 93 to 95: the first match of the preferred type, if any.\<close>

fun first_of_type :: "(int \<times> string) list \<Rightarrow> string \<Rightarrow> int option" where
  "first_of_type [] prefer_type = None"
| "first_of_type ((addr, sym_type) # rest) prefer_type =
     (if sym_type = prefer_type then Some addr else first_of_type rest prefer_type)"

text \<open>
  \<^verbatim>\<open>find_symbol_address\<close>; \<open>prefer_type\<close> is \<open>None\<close> for Python's \<^verbatim>\<open>None\<close>, and the
  test \<^verbatim>\<open>if prefer_type:\<close> holds for a string that is not empty.
\<close>

definition find_symbol_address :: "nm_record list \<Rightarrow> string \<Rightarrow> string option \<Rightarrow> exn + int" where
  "find_symbol_address nm_out symbol_name prefer_type =
     (let matches = collect_matches nm_out symbol_name in
      if matches = [] then Inl (SymbolNotFound symbol_name)
      else
        case (case prefer_type of
                None \<Rightarrow> None
              | Some p \<Rightarrow> if p = [] then None else first_of_type matches p) of
          Some addr \<Rightarrow> Inr addr
        | None \<Rightarrow> Inr (fst (hd matches)))"

text \<open>
  \<^verbatim>\<open>find_call_sites\<close> keeps the lines of the disassembly that match the pattern of a
  call-with-link instruction; each such line is a record of the address of the call, the
  instruction word and the target the disassembler printed.
\<close>

type_synonym dis_record = "int \<times> int \<times> int"

fun find_call_sites :: "dis_record list \<Rightarrow> int \<Rightarrow> (int \<times> int) list" where
  "find_call_sites [] target_addr = []"
| "find_call_sites ((call_addr, insn, target) # rest) target_addr =
     (if target = target_addr
      then (call_addr, insn) # find_call_sites rest target_addr
      else find_call_sites rest target_addr)"

section \<open>The patch engine\<close>

text \<open>
  The inner loop of \<^verbatim>\<open>patch_runtime\<close> (lines 220 to 222) over the call sites of one
  replacement: the buffer and the count of patched sites are threaded through. An
  exception of \<^verbatim>\<open>patch_call_site\<close> ends the loop.
\<close>

fun patch_sites ::
  "bytes \<Rightarrow> int \<Rightarrow> int \<Rightarrow> int \<Rightarrow> int \<Rightarrow> (int \<times> int) list \<Rightarrow> nat \<Rightarrow> exn + (bytes \<times> nat)" where
  "patch_sites data file_offset_base vaddr_base old_addr new_addr [] total_patches =
     Inr (data, total_patches)"
| "patch_sites data file_offset_base vaddr_base old_addr new_addr ((call_vaddr, insn) # rest)
       total_patches =
     (case patch_call_site data file_offset_base vaddr_base call_vaddr old_addr new_addr of
        Inl e \<Rightarrow> Inl e
      | Inr (ok, data', out) \<Rightarrow>
          patch_sites data' file_offset_base vaddr_base old_addr new_addr rest
            (if ok then total_patches + 1 else total_patches))"

text \<open>
  The outer loop (lines 199 to 226). The symbol and disassembly inspectors read the file
  on disk, which does not change before the commit, so their outputs are the same in every
  iteration; their invocations are taken to succeed. \<^verbatim>\<open>except RuntimeError\<close> abandons the
  replacement and goes on with the next; any other exception leaves \<^verbatim>\<open>patch_runtime\<close>.
  The loop over the call sites raises nothing but \<^verbatim>\<open>struct.error\<close>, which the handler
  does not catch.
\<close>

fun process_replacements ::
  "nm_record list \<Rightarrow> dis_record list \<Rightarrow> int \<Rightarrow> int \<Rightarrow> bytes \<Rightarrow> nat \<Rightarrow> (string \<times> string) list
     \<Rightarrow> exn + (bytes \<times> nat)" where
  "process_replacements nm_out dis file_offset_base vaddr_base data total_patches [] =
     Inr (data, total_patches)"
| "process_replacements nm_out dis file_offset_base vaddr_base data total_patches
       ((old_func, new_func) # rest) =
     (case find_symbol_address nm_out old_func (Some ''t'') of
        Inl e \<Rightarrow>
          if is_RuntimeError e
          then process_replacements nm_out dis file_offset_base vaddr_base data total_patches rest
          else Inl e
      | Inr old_addr \<Rightarrow>
          (case find_symbol_address nm_out new_func (Some ''T'') of
             Inl e \<Rightarrow>
               if is_RuntimeError e
               then process_replacements nm_out dis file_offset_base vaddr_base data
                      total_patches rest
               else Inl e
           | Inr new_addr \<Rightarrow>
               let call_sites = find_call_sites dis old_addr in
               if call_sites = []
               then process_replacements nm_out dis file_offset_base vaddr_base data
                      total_patches rest
               else
                 (case patch_sites data file_offset_base vaddr_base old_addr new_addr
                         call_sites total_patches of
                    Inl e \<Rightarrow> Inl e
                  | Inr (data', total') \<Rightarrow>
                      process_replacements nm_out dis file_offset_base vaddr_base data'
                        total' rest)))"

text \<open>
  \<^verbatim>\<open>patch_runtime\<close>. \<open>text_section\<close> is what \<^verbatim>\<open>get_text_section_info\<close> returns, \<open>None\<close>
  where it raises; \<open>file\<close> is the content of the file read into the buffer. The result
  is the buffer written back to the file, if any, and the value returned or the exception
  raised.
\<close>

definition patch_runtime ::
  "(int \<times> int) option \<Rightarrow> nm_record list \<Rightarrow> dis_record list \<Rightarrow> bytes \<Rightarrow> (string \<times> string) list
     \<Rightarrow> bytes option \<times> (exn + bool)" where
  "patch_runtime text_section nm_out dis file replacements =
     (case text_section of
        None \<Rightarrow> (None, Inl SectionNotFound)
      | Some (file_offset_base, vaddr_base) \<Rightarrow>
          (case process_replacements nm_out dis file_offset_base vaddr_base file 0 replacements of
             Inl e \<Rightarrow> (None, Inl e)
           | Inr (data, total_patches) \<Rightarrow>
               if total_patches > 0 then (Some data, Inr True) else (None, Inr False)))"

text \<open>The content of the file after the run: what was written, or the old content.\<close>

definition file_after :: "bytes \<Rightarrow> bytes option \<times> (exn + bool) \<Rightarrow> bytes" where
  "file_after file r = (case fst r of None \<Rightarrow> file | Some data \<Rightarrow> data)"

section \<open>Masks and shifts as arithmetic\<close>

lemma and_low26: "(x::int) AND 0x3ffffff = x mod 67108864"
proof -
  have "(0x3ffffff::int) = mask 26" by (simp add: mask_eq_exp_minus_1)
  then have "x AND 0x3ffffff = take_bit 26 x" by (simp add: take_bit_eq_mask)
  then show ?thesis by (simp add: take_bit_eq_mod)
qed

lemma or_push_bit_low:
  fixes a r :: int
  assumes "0 \<le> r" "r < 2 ^ n"
  shows "push_bit n a OR r = push_bit n a + r"
proof -
  have r: "take_bit n r = r" using assms by (simp add: take_bit_int_eq_self)
  have "push_bit n a AND take_bit n r = 0"
    by (rule bit_eqI) (auto simp: bit_simps)
  then show ?thesis using r by (simp add: disjunctive_add_eq_or)
qed

lemma or_opcode:
  fixes r :: int assumes "0 \<le> r" "r < 67108864"
  shows "0x94000000 OR r = 0x94000000 + r"
  using or_push_bit_low [of r 26 37] assms by (simp add: push_bit_eq_mult)

lemma or_sign_fill:
  fixes r :: int assumes "0 \<le> r" "r < 67108864"
  shows "r OR 0xfc000000 = r + 0xfc000000"
  using or_push_bit_low [of r 26 63] assms by (simp add: push_bit_eq_mult or.commute)

lemma bit25_iff:
  fixes r :: int assumes "0 \<le> r" "r < 67108864"
  shows "(r AND 0x2000000 \<noteq> 0) = (33554432 \<le> r)"
proof -
  have "(r AND 2 ^ 25 = 0) = (\<not> bit r 25)" by (rule and_exp_eq_0_iff_not_bit)
  moreover have "bit r 25 = odd (r div 2 ^ 25)" by (rule bit_iff_odd)
  moreover have "odd (r div 33554432) = (33554432 \<le> r)"
  proof (cases "33554432 \<le> r")
    case True
    then have "r div 33554432 = 1" using assms by simp
    then show ?thesis using True by simp
  next
    case False
    then have "r div 33554432 = 0" using assms by simp
    then show ?thesis using False by simp
  qed
  ultimately show ?thesis by simp
qed

lemma and_high6:
  fixes w :: int
  shows "w AND 0xfc000000 = 67108864 * (w div 67108864 mod 64)"
proof -
  have "w AND push_bit 26 (mask 6) = push_bit 26 (take_bit 6 (drop_bit 26 w))"
    by (rule bit_eqI) (auto simp: bit_simps)
  then show ?thesis
    by (simp add: push_bit_eq_mult mask_eq_exp_minus_1 take_bit_eq_mod drop_bit_eq_div)
qed

section \<open>Reading and writing a word of the buffer\<close>

lemma digit_step:
  fixes a r :: int
  assumes "0 \<le> a" "a < 256"
  shows "(a + 256 * r) mod 256 = a" "(a + 256 * r) div 256 = r"
  using assms by simp_all

lemma byte_digits:
  fixes a b c d :: int
  assumes a: "0 \<le> a" "a < 256" and b: "0 \<le> b" "b < 256"
    and c: "0 \<le> c" "c < 256" and d: "0 \<le> d" "d < 256"
    and w: "w = a + 256 * b + 65536 * c + 16777216 * d"
  shows "w mod 256 = a" "w div 256 mod 256 = b" "w div 65536 mod 256 = c"
        "w div 16777216 mod 256 = d"
proof -
  have w0: "w = a + 256 * (b + 256 * (c + 256 * d))" by (simp add: w)
  have q1: "w div 256 = b + 256 * (c + 256 * d)"
    unfolding w0 by (rule digit_step(2) [OF a])
  have q2: "w div 256 div 256 = c + 256 * d"
    unfolding q1 by (rule digit_step(2) [OF b])
  have q3: "w div 256 div 256 div 256 = d"
    unfolding q2 using digit_step(2) [OF c, of d] by simp
  have s2: "w div 65536 = w div 256 div 256"
    using zdiv_zmult2_eq [of 256 w 256] by simp
  have s3: "w div 16777216 = w div 256 div 256 div 256"
    using zdiv_zmult2_eq [of 256 w 65536] s2 by simp
  show "w mod 256 = a" unfolding w0 by (rule digit_step(1) [OF a])
  show "w div 256 mod 256 = b" unfolding q1 by (rule digit_step(1) [OF b])
  show "w div 65536 mod 256 = c" unfolding s2 q2 by (rule digit_step(1) [OF c])
  show "w div 16777216 mod 256 = d" unfolding s3 q3 using d by simp
qed

lemma le_bytes_split:
  fixes v :: int
  assumes "0 \<le> v" "v < 4294967296"
  shows "v mod 256 + 256 * (v div 256 mod 256) + 65536 * (v div 65536 mod 256)
           + 16777216 * (v div 16777216 mod 256) = v"
proof -
  have s2: "v div 65536 = v div 256 div 256"
    using zdiv_zmult2_eq [of 256 v 256] by simp
  have s3: "v div 16777216 = v div 256 div 256 div 256"
    using zdiv_zmult2_eq [of 256 v 65536] s2 by simp
  have "v div 16777216 < 256" "0 \<le> v div 16777216" using assms by simp_all
  then have top: "v div 16777216 mod 256 = v div 16777216" by simp
  have e1: "v = v mod 256 + 256 * (v div 256)" by simp
  have e2: "v div 256 = v div 256 mod 256 + 256 * (v div 256 div 256)" by simp
  have e3: "v div 256 div 256 = v div 256 div 256 mod 256 + 256 * (v div 256 div 256 div 256)"
    by simp
  show ?thesis
    unfolding top unfolding s2 s3 using e1 e2 e3 by linarith
qed


lemma uint_byte_of_int: "uint (word_of_int x :: 8 word) = x mod 256"
  by (simp add: uint_word_of_int)

lemma uint_byte_bounds: "0 \<le> uint (x :: 8 word)" "uint (x :: 8 word) < 256"
  using uint_bounded [of x] by simp_all

lemma pack_into_u32_Inr:
  assumes "pack_into_u32 data off v = Inr data'"
  shows "0 \<le> v" "v < 4294967296" "off + 4 \<le> length data"
    "data' = data[off := word_of_int v, off + 1 := word_of_int (drop_bit 8 v),
                     off + 2 := word_of_int (drop_bit 16 v),
                     off + 3 := word_of_int (drop_bit 24 v)]"
  using assms by (simp_all add: pack_into_u32_def split: if_splits)

lemma nth_pack4:
  assumes "off + 4 \<le> length data"
  shows "data[off := b0, off + 1 := b1, off + 2 := b2, off + 3 := b3] ! off = b0"
    "data[off := b0, off + 1 := b1, off + 2 := b2, off + 3 := b3] ! (off + 1) = b1"
    "data[off := b0, off + 1 := b1, off + 2 := b2, off + 3 := b3] ! (off + 2) = b2"
    "data[off := b0, off + 1 := b1, off + 2 := b2, off + 3 := b3] ! (off + 3) = b3"
  using assms by simp_all

lemma drop_bit_bytes:
  fixes v :: int
  shows "drop_bit 8 v = v div 256" "drop_bit 16 v = v div 65536" "drop_bit 24 v = v div 16777216"
  by (simp_all add: drop_bit_eq_div)

lemma unpack_pack:
  assumes "pack_into_u32 data off v = Inr data'"
  shows "unpack_from_u32 data' off = Inr v"
proof -
  note p = pack_into_u32_Inr [OF assms]
  have n: "uint (data' ! off) = v mod 256"
    "uint (data' ! (off + 1)) = v div 256 mod 256"
    "uint (data' ! (off + 2)) = v div 65536 mod 256"
    "uint (data' ! (off + 3)) = v div 16777216 mod 256"
    unfolding p(4) nth_pack4 [OF p(3)] uint_byte_of_int drop_bit_bytes by (rule refl)+
  have len: "off + 4 \<le> length data'" using p(3) by (simp add: p(4))
  have "unpack_from_u32 data' off = Inr (v mod 256 + 256 * (v div 256 mod 256)
     + 65536 * (v div 65536 mod 256) + 16777216 * (v div 16777216 mod 256))"
    unfolding unpack_from_u32_def n using len by (rule if_P)
  then show ?thesis unfolding le_bytes_split [OF p(1,2)] .
qed

lemma unpack_bounds:
  assumes "unpack_from_u32 data off = Inr w"
  shows "0 \<le> w" "w < 4294967296"
proof -
  from assms have w: "w = uint (data ! off) + 256 * uint (data ! (off + 1))
                + 65536 * uint (data ! (off + 2)) + 16777216 * uint (data ! (off + 3))"
    by (auto simp: unpack_from_u32_def split: if_splits)
  show "0 \<le> w" using uint_byte_bounds(1) [of "data ! off"] uint_byte_bounds(1) [of "data ! (off + 1)"]
      uint_byte_bounds(1) [of "data ! (off + 2)"] uint_byte_bounds(1) [of "data ! (off + 3)"]
    unfolding w by linarith
  show "w < 4294967296" using uint_byte_bounds(2) [of "data ! off"]
      uint_byte_bounds(2) [of "data ! (off + 1)"]
      uint_byte_bounds(2) [of "data ! (off + 2)"] uint_byte_bounds(2) [of "data ! (off + 3)"]
    unfolding w by linarith
qed

lemma pack_unpack:
  assumes "unpack_from_u32 data off = Inr w"
  shows "pack_into_u32 data off w = Inr data"
proof -
  from assms have len: "off + 4 \<le> length data"
    and w: "w = uint (data ! off) + 256 * uint (data ! (off + 1))
                + 65536 * uint (data ! (off + 2)) + 16777216 * uint (data ! (off + 3))"
    by (auto simp: unpack_from_u32_def split: if_splits)
  note dg = byte_digits [OF uint_byte_bounds [of "data ! off"] uint_byte_bounds [of "data ! (off + 1)"]
      uint_byte_bounds [of "data ! (off + 2)"] uint_byte_bounds [of "data ! (off + 3)"] w]
  have e0: "(word_of_int w :: 8 word) = data ! off"
    by (rule word_uint_eqI) (simp add: uint_byte_of_int dg(1))
  have e1: "(word_of_int (drop_bit 8 w) :: 8 word) = data ! (off + 1)"
    using dg(2) by (intro word_uint_eqI) (simp add: uint_byte_of_int drop_bit_eq_div)
  have e2: "(word_of_int (drop_bit 16 w) :: 8 word) = data ! (off + 2)"
    using dg(3) by (intro word_uint_eqI) (simp add: uint_byte_of_int drop_bit_eq_div)
  have e3: "(word_of_int (drop_bit 24 w) :: 8 word) = data ! (off + 3)"
    using dg(4) by (intro word_uint_eqI) (simp add: uint_byte_of_int drop_bit_eq_div)
  have "\<not> (w < 0 \<or> 4294967296 \<le> w)" using unpack_bounds [OF assms] by simp
  moreover have "\<not> length data < off + 4" using len by simp
  ultimately show ?thesis
    by (simp add: pack_into_u32_def e0 e1 e2 e3)
qed

lemma encode_is_ValueError:
  "encode_bl_instruction pc target = Inl e \<Longrightarrow> is_ValueError e"
  by (auto simp: encode_bl_instruction_def Let_def split: if_splits)

lemma length_pack_into_u32:
  "pack_into_u32 data off v = Inr data' \<Longrightarrow> length data' = length data"
  by (auto simp: pack_into_u32_def split: if_splits)

lemma nth_pack_into_u32:
  "pack_into_u32 data off v = Inr data' \<Longrightarrow> i < off \<or> off + 4 \<le> i \<Longrightarrow> data' ! i = data ! i"
  by (auto simp: pack_into_u32_def split: if_splits)

lemma patch_call_site_exn:
  "patch_call_site data fb vb cv old new = Inl e \<Longrightarrow> e = StructError"
  by (auto simp: patch_call_site_def Let_def unpack_from_u32_def pack_into_u32_def
      dest: encode_is_ValueError split: if_splits sum.splits)

section \<open>The codec in arithmetic terms\<close>

lemma encode_Inr:
  assumes "encode_bl_instruction pc t = Inr w"
  shows "(t - pc) mod 4 = 0" "- 134217728 \<le> t - pc" "t - pc \<le> 134217727"
    "w = 0x94000000 + (t - pc) div 4 mod 67108864"
proof -
  from assms show a: "(t - pc) mod 4 = 0" and "- 134217728 \<le> t - pc" and "t - pc \<le> 134217727"
    by (auto simp: encode_bl_instruction_def Let_def split: if_splits)
  have r: "0 \<le> (t - pc) div 4 mod 67108864" "(t - pc) div 4 mod 67108864 < 67108864"
    by simp_all
  from assms have "w = 0x94000000 OR (drop_bit 2 (t - pc) AND 0x3ffffff)"
    by (auto simp: encode_bl_instruction_def Let_def split: if_splits)
  then have "w = 0x94000000 OR ((t - pc) div 4 mod 67108864)"
    by (simp add: and_low26 drop_bit_eq_div)
  then show "w = 0x94000000 + (t - pc) div 4 mod 67108864"
    using or_opcode [OF r] by simp
qed

lemma low26_of_bl_word:
  fixes r :: int
  assumes "0 \<le> r" "r < 67108864"
  shows "(0x94000000 + r) AND 0x3ffffff = r"
proof -
  have "(2483027968 + r) mod 67108864 = (r + 67108864 * 37) mod 67108864"
    by (simp add: add.commute)
  also have "\<dots> = r mod 67108864" by (rule mod_mult_self2)
  also have "\<dots> = r" using assms by simp
  finally show ?thesis by (simp add: and_low26)
qed

lemma decode_bl_word:
  fixes r :: int
  assumes "0 \<le> r" "r < 67108864"
  shows "decode_bl_target pc (0x94000000 + r)
           = pc + 4 * (if 33554432 \<le> r then r + 0xfc000000 else r)"
  using assms
  by (simp add: decode_bl_target_def Let_def low26_of_bl_word bit25_iff or_sign_fill
      push_bit_eq_mult)

lemma bl_roundtrip:
  assumes "encode_bl_instruction pc t = Inr w"
  shows "decode_bl_target pc w = (if t < pc then t + 2 ^ 34 else t)"
proof -
  define k where "k = (t - pc) div 4"
  note e = encode_Inr [OF assms]
  have tk: "t - pc = 4 * k" using e(1) div_mult_mod_eq [of "t - pc" 4] by (simp add: k_def)
  have kb: "- 33554432 \<le> k" "k < 33554432" using e(2,3) tk by simp_all
  have r: "0 \<le> k mod 67108864" "k mod 67108864 < 67108864" by simp_all
  have w: "w = 0x94000000 + k mod 67108864" using e(4) by (simp add: k_def)
  show ?thesis
  proof (cases "t < pc")
    case True
    then have "k < 0" using tk by simp
    then have "(k + 67108864) mod 67108864 = k + 67108864" using kb
      by (intro mod_pos_pos_trivial) simp_all
    then have "k mod 67108864 = k + 67108864" by simp
    then show ?thesis using True kb tk decode_bl_word [OF r, of pc] by (simp add: w)
  next
    case False
    then have "0 \<le> k" using tk by simp
    then have "k mod 67108864 = k" using kb by simp
    then show ?thesis using False kb tk decode_bl_word [OF r, of pc] by (simp add: w)
  qed
qed

lemma patch_call_site_True:
  assumes "patch_call_site data fb vb cv old new = Inr (True, data', out)"
  shows "0 \<le> fb + (cv - vb)" "fb + (cv - vb) < int (length data)"
    "\<exists>w. encode_bl_instruction cv new = Inr w
         \<and> pack_into_u32 data (nat (fb + (cv - vb))) w = Inr data'"
  using assms
  by (auto simp: patch_call_site_def Let_def split: if_splits sum.splits)



lemma unpack_from_u32_Inr_len:
  "unpack_from_u32 data off = Inr w \<Longrightarrow> off + 4 \<le> length data"
  by (auto simp: unpack_from_u32_def split: if_splits)

lemma bl_word_decompose:
  fixes w :: int
  assumes "0 \<le> w" "w < 4294967296" "w AND 0xfc000000 = 0x94000000"
  shows "w = 0x94000000 + w mod 67108864"
proof -
  have q: "0 \<le> w div 67108864" "w div 67108864 < 64" using assms(1,2) by simp_all
  then have "w div 67108864 mod 64 = w div 67108864" by simp
  then have "67108864 * (w div 67108864) = 0x94000000"
    using assms(3) by (simp add: and_high6)
  then show ?thesis using mult_div_mod_eq [of 67108864 w] by linarith
qed

lemma encode_signed_target:
  fixes w :: int
  assumes "0 \<le> w" "w < 4294967296" "w AND 0xfc000000 = 0x94000000"
  shows "encode_bl_instruction pc (pc + 4 * signed_take_bit 25 w) = Inr w"
proof -
  let ?s = "signed_take_bit 25 w"
  have lo: "- 33554432 \<le> ?s" using signed_take_bit_int_greater_eq_minus_exp [of 25 w] by simp
  have hi: "?s < 33554432" using signed_take_bit_int_less_exp [of 25 w] by simp
  have "take_bit 26 ?s = take_bit 26 w" by (rule take_bit_signed_take_bit) simp
  then have m: "?s mod 67108864 = w mod 67108864" by (simp add: take_bit_eq_mod)
  have r: "0 \<le> w mod 67108864" "w mod 67108864 < 67108864" by simp_all
  have "encode_bl_instruction pc (pc + 4 * ?s) = Inr (0x94000000 OR (?s AND 0x3ffffff))"
    using lo hi by (simp add: encode_bl_instruction_def drop_bit_eq_div)
  also have "\<dots> = Inr (0x94000000 + w mod 67108864)"
    using or_opcode [OF r] by (simp add: and_low26 m)
  also have "\<dots> = Inr w" using bl_word_decompose [OF assms] by simp
  finally show ?thesis .
qed

section \<open>Counting patched sites\<close>

lemma patch_call_site_False:
  "patch_call_site data fb vb cv old new = Inr (False, data', out) \<Longrightarrow> data' = data"
  by (auto simp: patch_call_site_def Let_def split: if_splits sum.splits)

lemma patch_sites_count:
  "patch_sites data fb vb old new sites n = Inr (data', n')
     \<Longrightarrow> n \<le> n' \<and> (n' = n \<longrightarrow> data' = data)"
proof (induction sites arbitrary: data n)
  case Nil
  then show ?case by simp
next
  case (Cons site sites)
  obtain cv insn where site: "site = (cv, insn)" by (cases site)
  from Cons.prems site obtain ok d1 out where
    p: "patch_call_site data fb vb cv old new = Inr (ok, d1, out)"
    and r: "patch_sites d1 fb vb old new sites (if ok then n + 1 else n) = Inr (data', n')"
    by (auto split: sum.splits)
  from Cons.IH [OF r] have ih: "(if ok then n + 1 else n) \<le> n'"
    "n' = (if ok then n + 1 else n) \<longrightarrow> data' = d1" by simp_all
  show ?case
  proof (cases ok)
    case True
    with ih show ?thesis by simp
  next
    case False
    with p have "d1 = data" by (simp add: patch_call_site_False)
    with False ih show ?thesis by simp
  qed
qed

lemma process_replacements_count:
  "process_replacements nm_out dis fb vb data n reps = Inr (data', n')
     \<Longrightarrow> n \<le> n' \<and> (n' = n \<longrightarrow> data' = data)"
proof (induction reps arbitrary: data n)
  case Nil
  then show ?case by simp
next
  case (Cons rep reps)
  obtain old_func new_func where rep: "rep = (old_func, new_func)" by (cases rep)
  from Cons.prems rep consider
    (skip) "process_replacements nm_out dis fb vb data n reps = Inr (data', n')"
  | (patch) old_addr new_addr d1 t1 where
      "patch_sites data fb vb old_addr new_addr (find_call_sites dis old_addr) n = Inr (d1, t1)"
      "process_replacements nm_out dis fb vb d1 t1 reps = Inr (data', n')"
    by (auto simp: Let_def split: sum.splits if_splits)
  then show ?case
  proof cases
    case skip
    then show ?thesis by (rule Cons.IH)
  next
    case patch
    from patch_sites_count [OF patch(1)] Cons.IH [OF patch(2)]
    show ?thesis by auto
  qed
qed

lemma no_commit_on_exception:
  "snd (patch_runtime text_section nm_out dis file replacements) = Inl e
     \<Longrightarrow> fst (patch_runtime text_section nm_out dis file replacements) = None"
  by (auto simp: patch_runtime_def split: option.splits sum.splits prod.splits if_splits)

section \<open>The loops of the symbol resolver as filters\<close>

lemma py_str_in_Tt:
  "length ty = 1 \<Longrightarrow> py_str_in ty ''Tt'' = (ty = ''T'' \<or> ty = ''t'')"
  by (cases ty) auto

lemma collect_matches_filter:
  assumes "\<forall>r \<in> set nm_out. length (fst (snd r)) = 1"
  shows "collect_matches nm_out symbol_name
      = map (\<lambda>r. (the (fst r), fst (snd r)))
          (filter (\<lambda>r. snd (snd r) = symbol_name
                       \<and> (fst (snd r) = ''t'' \<or> fst (snd r) = ''T'') \<and> fst r \<noteq> None) nm_out)"
  using assms
proof (induction nm_out)
  case Nil
  then show ?case by simp
next
  case (Cons r rest)
  obtain a ty n where r: "r = (a, ty, n)" by (cases r)
  from Cons.prems r have ty: "length ty = 1" by simp
  from Cons have ih: "collect_matches rest symbol_name
      = map (\<lambda>r. (the (fst r), fst (snd r)))
          (filter (\<lambda>r. snd (snd r) = symbol_name
                       \<and> (fst (snd r) = ''t'' \<or> fst (snd r) = ''T'') \<and> fst r \<noteq> None) rest)"
    by simp
  show ?case
    unfolding r using ty by (cases a) (auto simp: ih py_str_in_Tt)
qed

lemma first_of_type_filter:
  "first_of_type ms p
     = (case filter (\<lambda>m. snd m = p) ms of [] \<Rightarrow> None | m # _ \<Rightarrow> Some (fst m))"
  by (induction ms p rule: first_of_type.induct) auto

section \<open>Encoding: alignment and range\<close>

text \<open>
  Claim C4. Whenever \<open>target - pc\<close> is not a multiple of 4, encoding fails with the
  misaligned-target condition, whatever the magnitude of the offset: the alignment test
  precedes the range test.
\<close>

theorem encode_misaligned:
  "(target - pc) mod 4 \<noteq> 0 \<Longrightarrow>
     encode_bl_instruction pc target = Inl (MisalignedTarget (target - pc))"
  by (simp add: encode_bl_instruction_def)

theorem encode_misaligned_witness:
  "(0x40000000002 - 0x1000) mod 4 \<noteq> (0::int) \<and>
   encode_bl_instruction 0x1000 0x40000000002 = Inl (MisalignedTarget (0x40000000002 - 0x1000))"
  using encode_misaligned [of "0x40000000002" "0x1000"] by simp

text \<open>
  Claim C3. For every \<open>pc\<close>, encoding succeeds when the offset is the largest
  (\<open>2 ^ 27 - 4\<close>) or the smallest (\<open>- (2 ^ 27)\<close>) byte offset of a signed 26-bit word
  offset, and fails with the out-of-range condition one word beyond either of them.
\<close>

theorem encode_boundary:
  "encode_bl_instruction pc (pc + (2 ^ 27 - 4)) = Inr 0x95ffffff
   \<and> encode_bl_instruction pc (pc - 2 ^ 27) = Inr 0x96000000
   \<and> encode_bl_instruction pc (pc + 2 ^ 27) = Inl (OffsetOutOfRange (2 ^ 27))
   \<and> encode_bl_instruction pc (pc - 2 ^ 27 - 4) = Inl (OffsetOutOfRange (- (2 ^ 27) - 4))"
  by (simp add: encode_bl_instruction_def)

section \<open>Effect of one patch on the buffer\<close>

text \<open>
  Claim C9. Whenever \<^verbatim>\<open>patch_call_site\<close> returns failure (offset out of bounds, a word
  that is not a call-with-link instruction, or an encoding error), the buffer after the
  call is the buffer before it.
\<close>

theorem failure_leaves_buffer:
  "patch_call_site data file_offset_base vaddr_base call_vaddr old_target new_target
     = Inr (False, data', out) \<Longrightarrow> data' = data"
  by (auto simp: patch_call_site_def Let_def split: if_splits sum.splits)

theorem failure_leaves_buffer_witness:
  "patch_call_site [0, 0, 0, 0x94] 0 0x1000 0x1000 0x2000 0x1002
     = Inr (False, [0, 0, 0, 0x94],
            [WarnTargetMismatch 0x1000 0x1000 0x2000, ErrCannotEncode 0x1000 (MisalignedTarget 2)])
   \<and> [0, 0, 0, 0x94] = ([0, 0, 0, 0x94] :: bytes)"
proof -
  have h: "patch_call_site [0, 0, 0, 0x94] 0 0x1000 0x1000 0x2000 0x1002
     = Inr (False, [0, 0, 0, 0x94],
            [WarnTargetMismatch 0x1000 0x1000 0x2000, ErrCannotEncode 0x1000 (MisalignedTarget 2)])"
    by (simp add: patch_call_site_def unpack_from_u32_def decode_bl_target_def
        encode_bl_instruction_def)
  show ?thesis using h failure_leaves_buffer [OF h] by simp
qed

text \<open>
  Claim C10. Whenever \<^verbatim>\<open>patch_call_site\<close> returns success, the translated offset
  \<open>file_offset_base + (call_vaddr - vaddr_base)\<close> and the three bytes after it lie within
  the buffer, the buffer keeps its length, every byte outside these four is unchanged,
  and the four bytes hold the encoded new instruction.
\<close>

theorem success_writes_one_word:
  assumes "patch_call_site data file_offset_base vaddr_base call_vaddr old_target new_target
             = Inr (True, data', out)"
  shows "0 \<le> file_offset_base + (call_vaddr - vaddr_base)
     \<and> nat (file_offset_base + (call_vaddr - vaddr_base)) + 4 \<le> length data
     \<and> length data' = length data
     \<and> (\<forall>i < length data.
            i < nat (file_offset_base + (call_vaddr - vaddr_base))
            \<or> nat (file_offset_base + (call_vaddr - vaddr_base)) + 4 \<le> i
            \<longrightarrow> data' ! i = data ! i)
     \<and> (\<exists>w. encode_bl_instruction call_vaddr new_target = Inr w
            \<and> unpack_from_u32 data' (nat (file_offset_base + (call_vaddr - vaddr_base))) = Inr w)"
proof -
  from patch_call_site_True [OF assms] obtain w where
    off: "0 \<le> file_offset_base + (call_vaddr - vaddr_base)"
    and enc: "encode_bl_instruction call_vaddr new_target = Inr w"
    and pk: "pack_into_u32 data (nat (file_offset_base + (call_vaddr - vaddr_base))) w = Inr data'"
    by blast
  show ?thesis
    using off enc pack_into_u32_Inr(3) [OF pk] length_pack_into_u32 [OF pk]
      nth_pack_into_u32 [OF pk] unpack_pack [OF pk]
    by blast
qed

theorem success_writes_one_word_witness:
  "patch_call_site [0xAA, 0x00, 0x04, 0x00, 0x94, 0xBB] 1 0x1000 0x1000 0x2000 0x2040
     = Inr (True, [0xAA, 0x10, 0x04, 0x00, 0x94, 0xBB], [Patched 0x1000 1 0x2000 0x2040])
   \<and> nat (1 + (0x1000 - 0x1000)) + 4 \<le> length [0xAA, 0x00, 0x04, 0x00, 0x94, 0xBB :: 8 word]
   \<and> length [0xAA, 0x10, 0x04, 0x00, 0x94, 0xBB :: 8 word]
       = length [0xAA, 0x00, 0x04, 0x00, 0x94, 0xBB :: 8 word]
   \<and> [0xAA, 0x10, 0x04, 0x00, 0x94, 0xBB :: 8 word] ! 0 = [0xAA, 0x00, 0x04, 0x00, 0x94, 0xBB] ! 0
   \<and> [0xAA, 0x10, 0x04, 0x00, 0x94, 0xBB :: 8 word] ! 5 = [0xAA, 0x00, 0x04, 0x00, 0x94, 0xBB] ! 5
   \<and> (\<exists>w. encode_bl_instruction 0x1000 0x2040 = Inr w
          \<and> unpack_from_u32 [0xAA, 0x10, 0x04, 0x00, 0x94, 0xBB] (nat (1 + (0x1000 - 0x1000)))
              = Inr w)"
proof -
  have h: "patch_call_site [0xAA, 0x00, 0x04, 0x00, 0x94, 0xBB] 1 0x1000 0x1000 0x2000 0x2040
     = Inr (True, [0xAA, 0x10, 0x04, 0x00, 0x94, 0xBB], [Patched 0x1000 1 0x2000 0x2040])"
    by (simp add: patch_call_site_def unpack_from_u32_def pack_into_u32_def decode_bl_target_def
        encode_bl_instruction_def)
  note c = success_writes_one_word [OF h]
  from c have f: "\<forall>i < length [0xAA, 0x00, 0x04, 0x00, 0x94, 0xBB :: 8 word].
            i < nat (1 + (0x1000 - 0x1000)) \<or> nat (1 + (0x1000 - 0x1000)) + 4 \<le> i
            \<longrightarrow> [0xAA, 0x10, 0x04, 0x00, 0x94, 0xBB :: 8 word] ! i
                = [0xAA, 0x00, 0x04, 0x00, 0x94, 0xBB] ! i"
    by (elim conjE)
  have f0: "[0xAA, 0x10, 0x04, 0x00, 0x94, 0xBB :: 8 word] ! 0 = [0xAA, 0x00, 0x04, 0x00, 0x94, 0xBB] ! 0"
    using f [rule_format, of 0] by simp
  have f5: "[0xAA, 0x10, 0x04, 0x00, 0x94, 0xBB :: 8 word] ! 5 = [0xAA, 0x00, 0x04, 0x00, 0x94, 0xBB] ! 5"
    using f [rule_format, of 5] by simp
  from c show ?thesis by (intro conjI h f0 f5) (elim conjE, assumption)+
qed

section \<open>Sites that cannot be patched\<close>



text \<open>
  The test of \<^verbatim>\<open>patch_call_site\<close> is on the offset alone. An offset within the last three
  bytes of the buffer passes it, and reading the word there raises \<^verbatim>\<open>struct.error\<close>,
  which nothing catches.
\<close>

lemma word_past_end_raises:
  assumes "0 \<le> file_offset_base + (call_vaddr - vaddr_base)"
    and "file_offset_base + (call_vaddr - vaddr_base) < int (length data)"
    and "int (length data) < file_offset_base + (call_vaddr - vaddr_base) + 4"
  shows "patch_call_site data file_offset_base vaddr_base call_vaddr old_addr new_addr
           = Inl StructError"
proof -
  have "\<not> nat (file_offset_base + (call_vaddr - vaddr_base)) + 4 \<le> length data"
    using assms by linarith
  then show ?thesis
    using assms(1,2) by (simp add: patch_call_site_def unpack_from_u32_def Let_def)
qed

section \<open>The cross-check of the old target\<close>




section \<open>Encoding and decoding again\<close>

text \<open>
  What the decode rule of \<^verbatim>\<open>patch_call_site\<close> returns on an encoded word is settled by
  \<open>bl_roundtrip\<close>: the target for a forward call, the target plus \<open>2 ^ 34\<close> for a backward
  call. Or-ing \<^verbatim>\<open>0xfc000000\<close> into the immediate gives a 32-bit pattern, which Python
  reads as a non-negative number; nothing reduces it to a signed value.

  Claim C1 asks that decoding an encoded word gives the target back. The call of the
  example in the comment of \<^verbatim>\<open>find_call_sites\<close>, at \<open>0x27c2a4\<close> to \<open>0x26ecf0\<close>, has an
  aligned offset within range and is encoded as \<open>0x97ffca93\<close>, as in that comment; the
  decode rule of \<^verbatim>\<open>patch_call_site\<close> then gives \<open>0x40026ecf0\<close>, not \<open>0x26ecf0\<close>.
\<close>

theorem roundtrip_backward_call:
  "(0x26ecf0 - 0x27c2a4 :: int) mod 4 = 0
   \<and> - 0x8000000 \<le> (0x26ecf0 - 0x27c2a4 :: int) \<and> (0x26ecf0 - 0x27c2a4 :: int) \<le> 0x7fffffc
   \<and> encode_bl_instruction 0x27c2a4 0x26ecf0 = Inr 0x97ffca93
   \<and> decode_bl_target 0x27c2a4 0x97ffca93 = 0x40026ecf0
   \<and> decode_bl_target 0x27c2a4 0x97ffca93 \<noteq> 0x26ecf0"
  by (simp add: encode_bl_instruction_def decode_bl_target_def)

section \<open>A replacement of a function by itself\<close>

text \<open>
  When the word at the site is a call-with-link instruction and the address is the target
  its low 26 bits denote as a signed word offset (the target the disassembler prints),
  patching that address to itself succeeds and leaves every byte as it was.
\<close>

lemma self_patch_keeps_bytes:
  assumes "0 \<le> file_offset_base + (call_vaddr - vaddr_base)"
    and "unpack_from_u32 data (nat (file_offset_base + (call_vaddr - vaddr_base))) = Inr w"
    and "w AND 0xfc000000 = 0x94000000"
    and "addr = call_vaddr + 4 * signed_take_bit 25 w"
  shows "\<exists>out. patch_call_site data file_offset_base vaddr_base call_vaddr addr addr
                 = Inr (True, data, out)"
proof -
  let ?off = "file_offset_base + (call_vaddr - vaddr_base)"
  have len: "nat ?off + 4 \<le> length data" by (rule unpack_from_u32_Inr_len [OF assms(2)])
  have inb: "\<not> (?off < 0 \<or> int (length data) \<le> ?off)" using assms(1) len by linarith
  have enc: "encode_bl_instruction call_vaddr addr = Inr w"
    unfolding assms(4) by (rule encode_signed_target [OF unpack_bounds [OF assms(2)] assms(3)])
  show ?thesis
    using inb assms(2,3) enc pack_unpack [OF assms(2)]
    by (simp add: patch_call_site_def Let_def)
qed


section \<open>The commit\<close>

text \<open>
  Claim C5. When all replacements have been processed, the file is written if and only if
  the count of patched sites is greater than zero, and then with the whole buffer; when
  the count is zero nothing is written, the content of the file is what it was, and the
  buffer itself still equals it.
\<close>

theorem commit_iff_patched:
  assumes "process_replacements nm_out dis file_offset_base vaddr_base file 0 replacements
             = Inr (data, total_patches)"
  shows "(fst (patch_runtime (Some (file_offset_base, vaddr_base)) nm_out dis file replacements)
            \<noteq> None) = (0 < total_patches)
     \<and> (0 < total_patches \<longrightarrow>
          patch_runtime (Some (file_offset_base, vaddr_base)) nm_out dis file replacements
            = (Some data, Inr True))
     \<and> (total_patches = 0 \<longrightarrow>
          patch_runtime (Some (file_offset_base, vaddr_base)) nm_out dis file replacements
            = (None, Inr False)
          \<and> file_after file
              (patch_runtime (Some (file_offset_base, vaddr_base)) nm_out dis file replacements)
            = file
          \<and> data = file)"
  using assms process_replacements_count [OF assms]
  by (simp add: patch_runtime_def file_after_def)

theorem commit_iff_patched_witness:
  "process_replacements [(Some 0x2000, ''t'', ''old''), (Some 0x2040, ''T'', ''new'')]
      [(0x1000, 0x94000400, 0x2000)] 1 0x1000 [0xAA, 0x00, 0x04, 0x00, 0x94, 0xBB] 0
      [(''old'', ''new'')]
    = Inr ([0xAA, 0x10, 0x04, 0x00, 0x94, 0xBB], 1)
   \<and> patch_runtime (Some (1, 0x1000))
        [(Some 0x2000, ''t'', ''old''), (Some 0x2040, ''T'', ''new'')]
        [(0x1000, 0x94000400, 0x2000)] [0xAA, 0x00, 0x04, 0x00, 0x94, 0xBB] [(''old'', ''new'')]
      = (Some [0xAA, 0x10, 0x04, 0x00, 0x94, 0xBB], Inr True)
   \<and> process_replacements [(Some 0x2040, ''T'', ''new'')]
        [(0x1000, 0x94000400, 0x2000)] 1 0x1000 [0xAA, 0x00, 0x04, 0x00, 0x94, 0xBB] 0
        [(''old'', ''new'')]
      = Inr ([0xAA, 0x00, 0x04, 0x00, 0x94, 0xBB], 0)
   \<and> patch_runtime (Some (1, 0x1000)) [(Some 0x2040, ''T'', ''new'')]
        [(0x1000, 0x94000400, 0x2000)] [0xAA, 0x00, 0x04, 0x00, 0x94, 0xBB] [(''old'', ''new'')]
      = (None, Inr False)
   \<and> file_after [0xAA, 0x00, 0x04, 0x00, 0x94, 0xBB]
        (patch_runtime (Some (1, 0x1000)) [(Some 0x2040, ''T'', ''new'')]
           [(0x1000, 0x94000400, 0x2000)] [0xAA, 0x00, 0x04, 0x00, 0x94, 0xBB]
           [(''old'', ''new'')])
      = [0xAA, 0x00, 0x04, 0x00, 0x94, 0xBB]"
proof -
  have a: "process_replacements [(Some 0x2000, ''t'', ''old''), (Some 0x2040, ''T'', ''new'')]
      [(0x1000, 0x94000400, 0x2000)] 1 0x1000 [0xAA, 0x00, 0x04, 0x00, 0x94, 0xBB] 0
      [(''old'', ''new'')]
    = Inr ([0xAA, 0x10, 0x04, 0x00, 0x94, 0xBB], 1)"
    by (simp add: find_symbol_address_def patch_call_site_def unpack_from_u32_def
        pack_into_u32_def decode_bl_target_def encode_bl_instruction_def)
  have b: "process_replacements [(Some 0x2040, ''T'', ''new'')]
        [(0x1000, 0x94000400, 0x2000)] 1 0x1000 [0xAA, 0x00, 0x04, 0x00, 0x94, 0xBB] 0
        [(''old'', ''new'')]
      = Inr ([0xAA, 0x00, 0x04, 0x00, 0x94, 0xBB], 0)"
    by (simp add: find_symbol_address_def)
  from commit_iff_patched [OF a]
  have pa: "patch_runtime (Some (1, 0x1000))
        [(Some 0x2000, ''t'', ''old''), (Some 0x2040, ''T'', ''new'')]
        [(0x1000, 0x94000400, 0x2000)] [0xAA, 0x00, 0x04, 0x00, 0x94, 0xBB] [(''old'', ''new'')]
      = (Some [0xAA, 0x10, 0x04, 0x00, 0x94, 0xBB], Inr True)"
    by simp
  from commit_iff_patched [OF b]
  have pb: "patch_runtime (Some (1, 0x1000)) [(Some 0x2040, ''T'', ''new'')]
        [(0x1000, 0x94000400, 0x2000)] [0xAA, 0x00, 0x04, 0x00, 0x94, 0xBB] [(''old'', ''new'')]
      = (None, Inr False)
   \<and> file_after [0xAA, 0x00, 0x04, 0x00, 0x94, 0xBB]
        (patch_runtime (Some (1, 0x1000)) [(Some 0x2040, ''T'', ''new'')]
           [(0x1000, 0x94000400, 0x2000)] [0xAA, 0x00, 0x04, 0x00, 0x94, 0xBB]
           [(''old'', ''new'')])
      = [0xAA, 0x00, 0x04, 0x00, 0x94, 0xBB]"
    by (simp add: file_after_def)
  show ?thesis by (intro conjI a b pa pb [THEN conjunct1] pb [THEN conjunct2])
qed

section \<open>The symbol resolver\<close>

text \<open>
  Claim C6. The records are those of well-formed output of the symbol inspector: every
  type field is a single letter. A record matches when its name is the requested one, its
  type is \<open>t\<close> (local or weak) or \<open>T\<close> (global) and its address field is a number. If some
  matching record has the preferred type, the resolver returns the address of the first
  such record in input order; otherwise it returns the address of the first matching
  record; it fails with the symbol-not-found condition exactly when no record matches.
\<close>

theorem resolver_order:
  assumes "\<forall>r \<in> set nm_out. length (fst (snd r)) = 1"
  shows "find_symbol_address nm_out symbol_name (Some prefer_type)
     = (let cands = filter (\<lambda>r. snd (snd r) = symbol_name
                                \<and> (fst (snd r) = ''t'' \<or> fst (snd r) = ''T'')
                                \<and> fst r \<noteq> None) nm_out;
            preferred = filter (\<lambda>r. fst (snd r) = prefer_type) cands
        in if preferred \<noteq> [] then Inr (the (fst (hd preferred)))
           else if cands \<noteq> [] then Inr (the (fst (hd cands)))
           else Inl (SymbolNotFound symbol_name))"
proof -
  define cands where "cands = filter (\<lambda>r. snd (snd r) = symbol_name
                                \<and> (fst (snd r) = ''t'' \<or> fst (snd r) = ''T'')
                                \<and> fst r \<noteq> None) nm_out"
  define pref where "pref = filter (\<lambda>r. fst (snd r) = prefer_type) cands"
  define f where "f = (\<lambda>r :: nm_record. (the (fst r), fst (snd r)))"
  have cm: "collect_matches nm_out symbol_name = map f cands"
    unfolding cands_def f_def by (rule collect_matches_filter [OF assms])
  have fl: "filter (\<lambda>m. snd m = prefer_type) (map f cands) = map f pref"
    by (simp add: pref_def f_def filter_map o_def)
  have fot: "first_of_type (map f cands) prefer_type
               = (case pref of [] \<Rightarrow> None | r # _ \<Rightarrow> Some (the (fst r)))"
    unfolding first_of_type_filter fl by (cases pref) (simp_all add: f_def)
  have sub: "set cands \<subseteq> set nm_out" by (auto simp: cands_def)
  have ne: "pref = []" if "prefer_type = []"
  proof -
    have "fst (snd r) \<noteq> prefer_type" if "r \<in> set cands" for r
      using assms sub that \<open>prefer_type = []\<close> by fastforce
    then show ?thesis by (simp add: pref_def filter_empty_conv)
  qed
  have hdc: "fst (hd (map f cands)) = the (fst (hd cands))" if "cands \<noteq> []"
    using that by (cases cands) (simp_all add: f_def)
  have "find_symbol_address nm_out symbol_name (Some prefer_type)
     = (if pref \<noteq> [] then Inr (the (fst (hd pref)))
        else if cands \<noteq> [] then Inr (the (fst (hd cands)))
        else Inl (SymbolNotFound symbol_name))"
  proof (cases "cands = []")
    case True
    then have "pref = []" by (simp add: pref_def)
    with True show ?thesis by (simp add: find_symbol_address_def cm Let_def)
  next
    case c: False
    show ?thesis
    proof (cases pref)
      case Nil
      with c hdc show ?thesis by (simp add: find_symbol_address_def cm fot Let_def)
    next
      case (Cons r rs)
      then have "prefer_type \<noteq> []" using ne by auto
      with c Cons show ?thesis by (simp add: find_symbol_address_def cm fot Let_def)
    qed
  qed
  then show ?thesis by (simp add: cands_def pref_def Let_def)
qed

theorem resolver_order_witness:
  "list_all (\<lambda>r. length (fst (snd r)) = 1)
     [(Some 0x100, ''T'', ''f''), (Some 0x200, ''t'', ''f''), (Some 0x300, ''t'', ''f''),
      (Some 0x400, ''D'', ''g''), (Some 0x500, ''t'', ''h''), (Some 0x600, ''t'', ''h'')]
   \<and> find_symbol_address
        [(Some 0x100, ''T'', ''f''), (Some 0x200, ''t'', ''f''), (Some 0x300, ''t'', ''f''),
         (Some 0x400, ''D'', ''g''), (Some 0x500, ''t'', ''h''), (Some 0x600, ''t'', ''h'')]
        ''f'' (Some ''t'') = Inr 0x200
   \<and> find_symbol_address
        [(Some 0x100, ''T'', ''f''), (Some 0x200, ''t'', ''f''), (Some 0x300, ''t'', ''f''),
         (Some 0x400, ''D'', ''g''), (Some 0x500, ''t'', ''h''), (Some 0x600, ''t'', ''h'')]
        ''h'' (Some ''T'') = Inr 0x500
   \<and> find_symbol_address
        [(Some 0x100, ''T'', ''f''), (Some 0x200, ''t'', ''f''), (Some 0x300, ''t'', ''f''),
         (Some 0x400, ''D'', ''g''), (Some 0x500, ''t'', ''h''), (Some 0x600, ''t'', ''h'')]
        ''g'' (Some ''t'') = Inl (SymbolNotFound ''g'')"
proof -
  have h: "\<forall>r \<in> set [(Some 0x100, ''T'', ''f''), (Some 0x200, ''t'', ''f''),
      (Some 0x300, ''t'', ''f''), (Some 0x400, ''D'', ''g''), (Some 0x500, ''t'', ''h''),
      (Some (0x600 :: int), ''t'', ''h'')]. length (fst (snd r)) = 1"
    by simp
  show ?thesis
    using resolver_order [OF h, of "''f''" "''t''"] resolver_order [OF h, of "''h''" "''T''"]
      resolver_order [OF h, of "''g''" "''t''"]
    by simp
qed

end
